theory Spec2Isabelle
  imports Main "HOL-Library.Word" "HOL-Library.AList" "HOL-Library.Multiset"
begin

section \<open>Data model (package models)\<close>

text \<open>
  Go's \<open>int64\<close> is a 64-bit word; Go's \<open>int\<close> is taken at its width on the 64-bit
  targets the service is built for. Addition on both wraps around, \<open>sint\<close> reads the
  signed value. A \<open>time.Time\<close> is an opaque tick count; the zero time is \<open>0\<close>.
\<close>

type_synonym byte = "8 word"
type_synonym int64 = "64 word"
type_synonym go_int = "64 word"
type_synonym timestamp = int

record User =
  ID :: string
  Username :: string
  Email :: string
  Status :: string
  CreatedAt :: timestamp
  UpdatedAt :: timestamp
  LastLogin :: timestamp
  PodName :: string
  PodIP :: string
  PublicKey :: string
  PrivateKey :: string
  ConfigData :: string
  DataUsage :: int64
  ConnectionCount :: go_int

record CreateUserRequest =
  req_Username :: string
  req_Email :: string

record UserStats =
  TotalUsers :: go_int
  ActiveUsers :: go_int
  InactiveUsers :: go_int
  SuspendedUsers :: go_int
  TotalDataUsage :: int64
  TotalConnections :: go_int

text \<open>\<open>NewUser\<close>: the identifier comes from \<open>uuid.New().String()\<close> and the time from
  \<open>time.Now()\<close>; both are inputs here. Every field not named in the source's composite
  literal has Go's zero value.\<close>

definition NewUser :: "string \<Rightarrow> timestamp \<Rightarrow> string \<Rightarrow> string \<Rightarrow> User" where
  "NewUser uid now username email =
     \<lparr> ID = uid, Username = username, Email = email, Status = ''active'',
       CreatedAt = now, UpdatedAt = now, LastLogin = 0,
       PodName = [], PodIP = [], PublicKey = [], PrivateKey = [], ConfigData = [],
       DataUsage = 0, ConnectionCount = 0 \<rparr>"

section \<open>Library functions the manager calls\<close>

text \<open>\<open>base64.StdEncoding.EncodeToString\<close> (RFC 4648, alphabet \<open>A-Za-z0-9+/\<close>, padded
  with \<open>=\<close>), written out so that keys can be computed.\<close>

definition encodeStd :: string where
  "encodeStd = ''ABCDEFGHIJKLMNOPQRSTUVWXYZabcdefghijklmnopqrstuvwxyz0123456789+/''"

definition b64char :: "nat \<Rightarrow> char" where
  "b64char n = encodeStd ! (n mod 64)"

fun EncodeToString :: "byte list \<Rightarrow> string" where
  "EncodeToString [] = []"
| "EncodeToString [a] =
     [b64char (unat a div 4), b64char ((unat a mod 4) * 16), CHR ''='', CHR ''='']"
| "EncodeToString [a, b] =
     [b64char (unat a div 4), b64char ((unat a mod 4) * 16 + unat b div 16),
      b64char ((unat b mod 16) * 4), CHR ''='']"
| "EncodeToString (a # b # c # rest) =
     [b64char (unat a div 4), b64char ((unat a mod 4) * 16 + unat b div 16),
      b64char ((unat b mod 16) * 4 + unat c div 64), b64char (unat c mod 64)]
     @ EncodeToString rest"

text \<open>A decoder for that encoding, to say which bytes a key text stands for: the position
  of each character in the alphabet gives six bits, four characters give three bytes, and
  \<open>=\<close> fills up the last group.\<close>

fun index_of :: "'a \<Rightarrow> 'a list \<Rightarrow> nat \<Rightarrow> nat option" where
  "index_of c [] i = None"
| "index_of c (x # xs) i = (if x = c then Some i else index_of c xs (Suc i))"

definition b64val :: "char \<Rightarrow> nat option" where
  "b64val c = index_of c encodeStd 0"

definition quantum :: "nat \<Rightarrow> nat \<Rightarrow> nat \<Rightarrow> nat \<Rightarrow> byte list" where
  "quantum v1 v2 v3 v4 =
     [of_nat (v1 * 4 + v2 div 16), of_nat ((v2 mod 16) * 16 + v3 div 4), of_nat ((v3 mod 4) * 64 + v4)]"

fun decodeStd :: "string \<Rightarrow> byte list option" where
  "decodeStd [] = Some []"
| "decodeStd (c1 # c2 # c3 # c4 # rest) =
     (case (b64val c1, b64val c2) of
        (Some v1, Some v2) \<Rightarrow>
          if rest = [] \<and> c3 = CHR ''='' \<and> c4 = CHR ''='' then Some (take 1 (quantum v1 v2 0 0))
          else (case b64val c3 of
                  None \<Rightarrow> None
                | Some v3 \<Rightarrow>
                    if rest = [] \<and> c4 = CHR ''='' then Some (take 2 (quantum v1 v2 v3 0))
                    else (case b64val c4 of
                            None \<Rightarrow> None
                          | Some v4 \<Rightarrow> map_option ((@) (quantum v1 v2 v3 v4)) (decodeStd rest)))
      | _ \<Rightarrow> None)"
| "decodeStd _ = None"

text \<open>\<open>fmt.Sprintf("%d", n)\<close> for a non-negative \<open>n\<close>.\<close>

definition digit :: "nat \<Rightarrow> char" where
  "digit d = ''0123456789'' ! (d mod 10)"

fun show_nat :: "nat \<Rightarrow> string" where
  "show_nat n = (if n < 10 then [digit n] else show_nat (n div 10) @ [digit (n mod 10)])"

declare show_nat.simps [simp del]

section \<open>The surroundings of the process\<close>

text \<open>
  What stays fixed while the server runs is a field of \<open>Sys\<close>: the configuration read
  through \<open>config.GetString\<close> and \<open>config.GetInt\<close>, the validator behind the
  \<open>binding:"required,email"\<close> tag, \<open>curve25519.ScalarBaseMult\<close>, and whether
  \<open>resource.MustParse\<close> accepts a quantity (it panics otherwise).

  What one request draws from outside is a field of \<open>Env\<close>: the fresh identifier and the
  clock, the outcome of \<open>rand.Read\<close> (\<open>None\<close> when it returns an error), and what the
  cluster answers to each call: \<open>None\<close> or \<open>Inr\<close> for success, \<open>Some\<close> or \<open>Inl\<close> with
  the error text otherwise. \<open>pods_create\<close> carries the address the returned object reports,
  and \<open>pods_get k\<close> is the answer to the \<open>k\<close>-th \<open>Pods.Get\<close> of the request (the phase
  when it succeeds).
\<close>

record Sys =
  GetString :: "string \<Rightarrow> string"
  GetInt :: "string \<Rightarrow> int"
  is_email :: "string \<Rightarrow> bool"
  ScalarBaseMult :: "byte list \<Rightarrow> byte list"
  quantity_ok :: "string \<Rightarrow> bool"

record Env =
  uuid_New :: string
  time_Now :: timestamp
  rand_Read :: "byte list option"
  configmaps_create :: "string option"
  pods_create :: "string + string"
  pods_get :: "nat \<Rightarrow> string + string"
  pods_delete :: "string option"

section \<open>Credentials and configuration text (package k8s)\<close>

record WireGuardKeys =
  wg_PrivateKey :: string
  wg_PublicKey :: string

text \<open>\<open>make([]byte, 32)\<close> is zero-filled and \<open>rand.Read\<close> writes what it delivers into
  it, so the buffer always has 32 bytes.\<close>

definition fill32 :: "byte list \<Rightarrow> byte list" where
  "fill32 bs = take 32 (bs @ replicate 32 0)"

definition generateWireGuardKeys :: "Sys \<Rightarrow> Env \<Rightarrow> string + WireGuardKeys" where
  "generateWireGuardKeys sys env =
     (case rand_Read env of
        None \<Rightarrow> Inl ''rand.Read''
      | Some bs \<Rightarrow>
          let privateKey = fill32 bs;
              publicKey = ScalarBaseMult sys privateKey
          in Inr \<lparr> wg_PrivateKey = EncodeToString privateKey,
                   wg_PublicKey = EncodeToString publicKey \<rparr>)"

definition userIP :: "User \<Rightarrow> string" where
  "userIP user = ''10.0.0.'' @ show_nat (length (ID user) mod 254 + 1)"

definition nl :: string where
  "nl = [CHR 0x0A]"

definition generateWireGuardConfig :: "Sys \<Rightarrow> User \<Rightarrow> WireGuardKeys \<Rightarrow> string + string" where
  "generateWireGuardConfig sys user keys =
     Inr (''[Interface]'' @ nl
        @ ''PrivateKey = '' @ wg_PrivateKey keys @ nl
        @ ''Address = '' @ userIP user @ ''/24'' @ nl
        @ ''ListenPort = '' @ GetString sys ''vpn.wireguard_port'' @ nl
        @ ''PostUp = iptables -A FORWARD -i %i -j ACCEPT; iptables -t nat -A POSTROUTING -o eth0 -j MASQUERADE'' @ nl
        @ ''PostDown = iptables -D FORWARD -i %i -j ACCEPT; iptables -t nat -D POSTROUTING -o eth0 -j MASQUERADE'' @ nl
        @ nl
        @ ''[Peer]'' @ nl
        @ ''PublicKey = '' @ wg_PublicKey keys @ nl
        @ ''AllowedIPs = 0.0.0.0/0'' @ nl
        @ ''Endpoint = '' @ GetString sys ''vpn.endpoint'' @ '':'' @ GetString sys ''vpn.wireguard_port'' @ nl
        @ ''PersistentKeepalive = 25'' @ nl)"

section \<open>The cluster behind the client\<close>

text \<open>
  The manager reaches the cluster only through \<open>vm.clientset\<close>, always in its one
  namespace, so \<open>Cluster\<close> holds that namespace's objects: the ConfigMaps (name and the
  text under \<open>wg0.conf\<close>), the pods, and the log of every call sent, failed ones
  included. A call that the surroundings answer with an error changes nothing but the log.
\<close>

datatype call = ConfigMapsCreate string | PodsCreate string | PodsGet string | PodsDelete string

record Pod =
  pod_Name :: string
  pod_UserLabel :: string
  pod_Image :: string
  pod_ContainerPort :: "32 word"
  pod_ConfigMapName :: string
  pod_PodIP :: string

record Cluster =
  configMaps :: "(string \<times> string) list"
  pods :: "(string \<times> Pod) list"
  calls :: "call list"

definition ConfigMaps_Create :: "Env \<Rightarrow> string \<Rightarrow> string \<Rightarrow> Cluster \<Rightarrow> string option \<times> Cluster" where
  "ConfigMaps_Create env name conf cl =
     (let cl1 = cl\<lparr>calls := calls cl @ [ConfigMapsCreate name]\<rparr>
      in case configmaps_create env of
           Some e \<Rightarrow> (Some e, cl1)
         | None \<Rightarrow> (None, cl1\<lparr>configMaps := AList.update name conf (configMaps cl1)\<rparr>))"

definition Pods_Create :: "Env \<Rightarrow> Pod \<Rightarrow> Cluster \<Rightarrow> (string + Pod) \<times> Cluster" where
  "Pods_Create env pod cl =
     (let cl1 = cl\<lparr>calls := calls cl @ [PodsCreate (pod_Name pod)]\<rparr>
      in case pods_create env of
           Inl e \<Rightarrow> (Inl e, cl1)
         | Inr ip \<Rightarrow>
             (let created = pod\<lparr>pod_PodIP := ip\<rparr>
              in (Inr created, cl1\<lparr>pods := AList.update (pod_Name pod) created (pods cl1)\<rparr>)))"

definition Pods_Get :: "Env \<Rightarrow> nat \<Rightarrow> string \<Rightarrow> Cluster \<Rightarrow> (string + string) \<times> Cluster" where
  "Pods_Get env k name cl = (pods_get env k, cl\<lparr>calls := calls cl @ [PodsGet name]\<rparr>)"

definition Pods_Delete :: "Env \<Rightarrow> string \<Rightarrow> Cluster \<Rightarrow> string option \<times> Cluster" where
  "Pods_Delete env name cl =
     (let cl1 = cl\<lparr>calls := calls cl @ [PodsDelete name]\<rparr>
      in case pods_delete env of
           Some e \<Rightarrow> (Some e, cl1)
         | None \<Rightarrow> (None, cl1\<lparr>pods := AList.delete name (pods cl1)\<rparr>))"

section \<open>Pod lifecycle (package k8s)\<close>

text \<open>An error return carries its text; a panic unwinds the handler.\<close>

datatype failure = Err string | Panicked string

text \<open>
  \<open>waitForPodReady\<close> runs its closure under \<open>retry.OnError(retry.DefaultRetry, ...)\<close> with
  every error retriable: the closure is tried while steps remain, the last error is kept,
  and running out of steps returns that last error. \<open>retry.DefaultRetry\<close> has 5 steps.
\<close>

definition DefaultRetry_Steps :: nat where
  "DefaultRetry_Steps = 5"

fun OnError :: "Env \<Rightarrow> string \<Rightarrow> nat \<Rightarrow> nat \<Rightarrow> string option \<Rightarrow> Cluster \<Rightarrow> string option \<times> Cluster" where
  "OnError env podName 0 k lastErr cl = (lastErr, cl)"
| "OnError env podName (Suc steps) k lastErr cl =
     (case Pods_Get env k podName cl of
        (Inl e, cl1) \<Rightarrow> OnError env podName steps (Suc k) (Some e) cl1
      | (Inr phase, cl1) \<Rightarrow>
          if phase = ''Running'' then (None, cl1)
          else OnError env podName steps (Suc k) (Some ''pod not ready yet'') cl1)"

definition waitForPodReady :: "Env \<Rightarrow> string \<Rightarrow> Cluster \<Rightarrow> string option \<times> Cluster" where
  "waitForPodReady env podName cl = OnError env podName DefaultRetry_Steps 0 None cl"

text \<open>Of the pod literal, the record keeps the fields that vary; the container name, the
  capabilities, the mount path and the restart policy are constants of the source.\<close>

definition createVPNPod :: "Sys \<Rightarrow> Env \<Rightarrow> User \<Rightarrow> Cluster \<Rightarrow> (failure + Pod) \<times> Cluster" where
  "createVPNPod sys env user cl =
     (let podName = ''vpn-'' @ ID user;
          configMapName = ''vpn-config-'' @ ID user
      in case ConfigMaps_Create env configMapName (ConfigData user) cl of
           (Some e, cl1) \<Rightarrow> (Inl (Err (''failed to create ConfigMap: '' @ e)), cl1)
         | (None, cl1) \<Rightarrow>
             if \<not> (quantity_ok sys (GetString sys ''vpn.pod_cpu_request'')
                  \<and> quantity_ok sys (GetString sys ''vpn.pod_memory_request'')
                  \<and> quantity_ok sys (GetString sys ''vpn.pod_cpu_limit'')
                  \<and> quantity_ok sys (GetString sys ''vpn.pod_memory_limit''))
             then (Inl (Panicked ''resource.MustParse''), cl1)
             else
               (let pod = \<lparr> pod_Name = podName, pod_UserLabel = ID user,
                             pod_Image = GetString sys ''vpn.image'',
                             pod_ContainerPort = word_of_int (GetInt sys ''vpn.wireguard_port''),
                             pod_ConfigMapName = configMapName, pod_PodIP = [] \<rparr>
                in case Pods_Create env pod cl1 of
                     (Inl e, cl2) \<Rightarrow> (Inl (Err e), cl2)
                   | (Inr createdPod, cl2) \<Rightarrow>
                       (case waitForPodReady env (pod_Name createdPod) cl2 of
                          (Some e, cl3) \<Rightarrow> (Inl (Err e), cl3)
                        | (None, cl3) \<Rightarrow> (Inr createdPod, cl3))))"

text \<open>\<open>CreateUserVPN\<close> writes into the caller's user as it goes; the user as left behind is
  returned with the error.\<close>

definition CreateUserVPN :: "Sys \<Rightarrow> Env \<Rightarrow> User \<Rightarrow> Cluster \<Rightarrow> failure option \<times> User \<times> Cluster" where
  "CreateUserVPN sys env user cl =
     (case generateWireGuardKeys sys env of
        Inl e \<Rightarrow> (Some (Err (''failed to generate WireGuard keys: '' @ e)), user, cl)
      | Inr keys \<Rightarrow>
          (let user1 = user\<lparr>PublicKey := wg_PublicKey keys, PrivateKey := wg_PrivateKey keys\<rparr>
           in case generateWireGuardConfig sys user1 keys of
                Inl e \<Rightarrow> (Some (Err (''failed to generate WireGuard config: '' @ e)), user1, cl)
              | Inr config \<Rightarrow>
                  (let user2 = user1\<lparr>ConfigData := config\<rparr>
                   in case createVPNPod sys env user2 cl of
                        (Inl (Err e), cl1) \<Rightarrow>
                          (Some (Err (''failed to create VPN pod: '' @ e)), user2, cl1)
                      | (Inl (Panicked p), cl1) \<Rightarrow> (Some (Panicked p), user2, cl1)
                      | (Inr pod, cl1) \<Rightarrow>
                          (None, user2\<lparr>PodName := pod_Name pod, PodIP := pod_PodIP pod\<rparr>, cl1))))"

definition DeleteUserVPN :: "Env \<Rightarrow> User \<Rightarrow> Cluster \<Rightarrow> string option \<times> Cluster" where
  "DeleteUserVPN env user cl =
     (if PodName user = [] then (None, cl)
      else case Pods_Delete env (PodName user) cl of
             (Some e, cl1) \<Rightarrow> (Some (''failed to delete VPN pod: '' @ e), cl1)
           | (None, cl1) \<Rightarrow> (None, cl1))"

definition GetPodStatus :: "Env \<Rightarrow> string \<Rightarrow> Cluster \<Rightarrow> (string + string) \<times> Cluster" where
  "GetPodStatus env podName cl = Pods_Get env 0 podName cl"

section \<open>The API server (package api)\<close>

text \<open>
  The registry is the Go map \<open>s.users\<close>, from identifier to user: an association list
  whose keys are distinct, read with \<open>map_of\<close>, written with \<open>AList.update\<close> and
  \<open>AList.delete\<close>. A \<open>range\<close> loop visits every entry once, in an order Go leaves open;
  here it is the order of the list. Logging and the Prometheus gauges are write-only and
  left out.
\<close>

record Server =
  users :: "(string \<times> User) list"
  clientset :: Cluster

definition NewServer :: "Cluster \<Rightarrow> Server" where
  "NewServer cl = \<lparr> users = [], clientset = cl \<rparr>"

datatype json =
    JString string
  | JNumber int
  | JTime timestamp
  | JArray "json list"
  | JObject "(string \<times> json) list"

datatype content = JSON json | Plain string | Empty

record Response =
  code :: nat
  headers :: "(string \<times> string) list"
  body :: content

definition c_JSON :: "nat \<Rightarrow> (string \<times> json) list \<Rightarrow> Response" where
  "c_JSON st h = \<lparr> code = st, headers = [], body = JSON (JObject h) \<rparr>"

text \<open>A \<open>User\<close> as \<open>encoding/json\<close> writes it under the struct's tags: a string field
  tagged \<open>omitempty\<close> is left out when empty and written otherwise; a \<open>time.Time\<close> is
  always written.\<close>

definition omitempty :: "string \<Rightarrow> string \<Rightarrow> (string \<times> json) list" where
  "omitempty name v = (if v = [] then [] else [(name, JString v)])"

definition user_json :: "User \<Rightarrow> (string \<times> json) list" where
  "user_json u =
     [(''id'', JString (ID u)),
      (''username'', JString (Username u)),
      (''email'', JString (Email u)),
      (''status'', JString (Status u)),
      (''created_at'', JTime (CreatedAt u)),
      (''updated_at'', JTime (UpdatedAt u)),
      (''last_login'', JTime (LastLogin u))]
     @ omitempty ''pod_name'' (PodName u)
     @ omitempty ''pod_ip'' (PodIP u)
     @ omitempty ''public_key'' (PublicKey u)
     @ omitempty ''private_key'' (PrivateKey u)
     @ omitempty ''config_data'' (ConfigData u)
     @ [(''data_usage'', JNumber (sint (DataUsage u))),
        (''connection_count'', JNumber (sint (ConnectionCount u)))]"

definition stats_json :: "UserStats \<Rightarrow> (string \<times> json) list" where
  "stats_json st =
     [(''total_users'', JNumber (sint (TotalUsers st))),
      (''active_users'', JNumber (sint (ActiveUsers st))),
      (''inactive_users'', JNumber (sint (InactiveUsers st))),
      (''suspended_users'', JNumber (sint (SuspendedUsers st))),
      (''total_data_usage'', JNumber (sint (TotalDataUsage st))),
      (''total_connections'', JNumber (sint (TotalConnections st)))]"

definition ListUsers :: "Server \<Rightarrow> Response" where
  "ListUsers s =
     (let us = map snd (users s)
      in c_JSON 200 [(''users'', JArray (map (\<lambda>u. JObject (user_json u)) us)),
                     (''total'', JNumber (int (length us)))])"

text \<open>\<open>c.ShouldBindJSON\<close> on a decoded body: \<open>required\<close> refuses the empty string,
  \<open>email\<close> asks the validator. The error text stands for the validator's.\<close>

definition ShouldBindJSON :: "Sys \<Rightarrow> CreateUserRequest \<Rightarrow> string option" where
  "ShouldBindJSON sys req =
     (if req_Username req = [] then Some ''Username: required''
      else if req_Email req = [] then Some ''Email: required''
      else if \<not> is_email sys (req_Email req) then Some ''Email: email''
      else None)"

fun userExists :: "CreateUserRequest \<Rightarrow> (string \<times> User) list \<Rightarrow> bool" where
  "userExists req [] = False"
| "userExists req ((k, user) # rest) =
     (if Username user = req_Username req \<or> Email user = req_Email req then True
      else userExists req rest)"

text \<open>A panic in the handler is caught by the recovery middleware of \<open>gin.Default()\<close>,
  which answers 500 without a body.\<close>

definition CreateUser :: "Sys \<Rightarrow> Env \<Rightarrow> CreateUserRequest \<Rightarrow> Server \<Rightarrow> Response \<times> Server" where
  "CreateUser sys env req s =
     (case ShouldBindJSON sys req of
        Some e \<Rightarrow> (c_JSON 400 [(''error'', JString e)], s)
      | None \<Rightarrow>
          if userExists req (users s)
          then (c_JSON 409 [(''error'', JString ''User already exists'')], s)
          else
            (let user = NewUser (uuid_New env) (time_Now env) (req_Username req) (req_Email req)
             in case CreateUserVPN sys env user (clientset s) of
                  (Some (Err e), user1, cl) \<Rightarrow>
                    (c_JSON 500 [(''error'', JString ''Failed to create VPN'')],
                     s\<lparr>clientset := cl\<rparr>)
                | (Some (Panicked p), user1, cl) \<Rightarrow>
                    (\<lparr> code = 500, headers = [], body = Empty \<rparr>, s\<lparr>clientset := cl\<rparr>)
                | (None, user1, cl) \<Rightarrow>
                    (c_JSON 201 [(''user'', JObject (user_json user1)),
                                 (''message'', JString ''User created successfully'')],
                     s\<lparr>clientset := cl,
                       users := AList.update (ID user1) user1 (users s)\<rparr>)))"

text \<open>The registry holds pointers, so the status that \<open>GetUser\<close> writes into the user it
  looked up is written into the registry.\<close>

definition GetUser :: "Env \<Rightarrow> string \<Rightarrow> Server \<Rightarrow> Response \<times> Server" where
  "GetUser env userID s =
     (case map_of (users s) userID of
        None \<Rightarrow> (c_JSON 404 [(''error'', JString ''User not found'')], s)
      | Some user \<Rightarrow>
          if PodName user \<noteq> [] then
            (case GetPodStatus env (PodName user) (clientset s) of
               (Inr status, cl) \<Rightarrow>
                 (let user1 = user\<lparr>Status := status\<rparr>
                  in (c_JSON 200 [(''user'', JObject (user_json user1))],
                      s\<lparr>clientset := cl, users := AList.update userID user1 (users s)\<rparr>))
             | (Inl e, cl) \<Rightarrow>
                 (c_JSON 200 [(''user'', JObject (user_json user))], s\<lparr>clientset := cl\<rparr>))
          else (c_JSON 200 [(''user'', JObject (user_json user))], s))"

definition DeleteUser :: "Env \<Rightarrow> string \<Rightarrow> Server \<Rightarrow> Response \<times> Server" where
  "DeleteUser env userID s =
     (case map_of (users s) userID of
        None \<Rightarrow> (c_JSON 404 [(''error'', JString ''User not found'')], s)
      | Some user \<Rightarrow>
          (case DeleteUserVPN env user (clientset s) of
             (err, cl) \<Rightarrow>
               (c_JSON 200 [(''message'', JString ''User deleted successfully'')],
                s\<lparr>clientset := cl, users := AList.delete userID (users s)\<rparr>)))"

definition GetUserConfig :: "string \<Rightarrow> Server \<Rightarrow> Response" where
  "GetUserConfig userID s =
     (case map_of (users s) userID of
        None \<Rightarrow> c_JSON 404 [(''error'', JString ''User not found'')]
      | Some user \<Rightarrow>
          if ConfigData user = [] then c_JSON 404 [(''error'', JString ''VPN configuration not found'')]
          else \<lparr> code = 200,
                 headers = [(''Content-Disposition'', ''attachment; filename=vpn-'' @ Username user @ ''.conf''),
                            (''Content-Type'', ''text/plain'')],
                 body = Plain (ConfigData user) \<rparr>)"

definition count_user :: "User \<Rightarrow> UserStats \<Rightarrow> UserStats" where
  "count_user user stats =
     (let stats1 = stats\<lparr> TotalUsers := TotalUsers stats + 1,
                          TotalDataUsage := TotalDataUsage stats + DataUsage user,
                          TotalConnections := TotalConnections stats + ConnectionCount user \<rparr>
      in if Status user = ''active'' then stats1\<lparr>ActiveUsers := ActiveUsers stats1 + 1\<rparr>
         else if Status user = ''inactive'' then stats1\<lparr>InactiveUsers := InactiveUsers stats1 + 1\<rparr>
         else if Status user = ''suspended'' then stats1\<lparr>SuspendedUsers := SuspendedUsers stats1 + 1\<rparr>
         else stats1)"

fun range_users :: "(string \<times> User) list \<Rightarrow> UserStats \<Rightarrow> UserStats" where
  "range_users [] stats = stats"
| "range_users ((k, user) # rest) stats = range_users rest (count_user user stats)"

definition calculateStats :: "Server \<Rightarrow> UserStats" where
  "calculateStats s =
     range_users (users s)
       \<lparr> TotalUsers = 0, ActiveUsers = 0, InactiveUsers = 0, SuspendedUsers = 0,
         TotalDataUsage = 0, TotalConnections = 0 \<rparr>"

definition GetStats :: "Server \<Rightarrow> Response" where
  "GetStats s = c_JSON 200 [(''stats'', JObject (stats_json (calculateStats s)))]"

subsection \<open>Sequences of requests\<close>

text \<open>The handlers that change the server, as requests; \<open>run\<close> serves a sequence of them
  from a given state.\<close>

datatype request =
    POST_users Env CreateUserRequest
  | GET_user Env string
  | DELETE_user Env string

fun handle :: "Sys \<Rightarrow> request \<Rightarrow> Server \<Rightarrow> Response \<times> Server" where
  "handle sys (POST_users env req) s = CreateUser sys env req s"
| "handle sys (GET_user env userID) s = GetUser env userID s"
| "handle sys (DELETE_user env userID) s = DeleteUser env userID s"

fun run :: "Sys \<Rightarrow> request list \<Rightarrow> Server \<Rightarrow> Server" where
  "run sys [] s = s"
| "run sys (r # rs) s = run sys rs (snd (handle sys r s))"

subsection \<open>Reading a response\<close>

definition field :: "string \<Rightarrow> json \<Rightarrow> json option" where
  "field name j = (case j of JObject kvs \<Rightarrow> map_of kvs name | _ \<Rightarrow> None)"

definition listed_users :: "Response \<Rightarrow> json list" where
  "listed_users r =
     (case body r of
        JSON j \<Rightarrow> (case field ''users'' j of Some (JArray us) \<Rightarrow> us | _ \<Rightarrow> [])
      | _ \<Rightarrow> [])"

section \<open>Example surroundings\<close>

text \<open>The defaults that \<open>config.Load\<close> sets; a key without one reads as the empty string.\<close>

definition viper_defaults :: "(string \<times> string) list" where
  "viper_defaults =
     [(''server.port'', ''8080''),
      (''server.host'', ''0.0.0.0''),
      (''vpn.wireguard_port'', ''51820''),
      (''vpn.pod_cpu_limit'', ''100m''),
      (''vpn.pod_memory_limit'', ''128Mi''),
      (''vpn.pod_cpu_request'', ''50m''),
      (''vpn.pod_memory_request'', ''64Mi''),
      (''vpn.image'', ''linuxserver/wireguard:latest''),
      (''k8s.namespace'', ''vpnaas'')]"

text \<open>A system with those defaults and an endpoint set. The validator, the quantity
  parser and the curve multiplication are stand-ins: what is evaluated on the examples
  does not depend on which functions they are.\<close>

definition example_sys :: Sys where
  "example_sys =
     \<lparr> GetString = (\<lambda>key. if key = ''vpn.endpoint'' then ''vpn.example.com''
                          else case map_of viper_defaults key of None \<Rightarrow> [] | Some v \<Rightarrow> v),
       GetInt = (\<lambda>key. if key = ''vpn.wireguard_port'' then 51820 else 0),
       is_email = (\<lambda>e. CHR ''@'' \<in> set e),
       ScalarBaseMult = map (\<lambda>b. b + 9),
       quantity_ok = (\<lambda>q. q \<noteq> []) \<rparr>"

definition emptyCluster :: Cluster where
  "emptyCluster = \<lparr> configMaps = [], pods = [], calls = [] \<rparr>"

text \<open>A request's surroundings in which every call succeeds and the pod is running at the
  first look.\<close>

definition env_ok :: "string \<Rightarrow> Env" where
  "env_ok uid =
     \<lparr> uuid_New = uid, time_Now = 1700000000,
       rand_Read = Some (map of_nat [0..<32]),
       configmaps_create = None,
       pods_create = Inr ''10.244.0.7'',
       pods_get = (\<lambda>k. Inr ''Running''),
       pods_delete = None \<rparr>"

definition uuid_a :: string where
  "uuid_a = ''3f2b8c1e-7a4d-4e6b-9c0f-1d2e3f4a5b6c''"

definition uuid_b :: string where
  "uuid_b = ''a81c0d52-19ee-4b73-8f46-5e0b7c9d2a14''"

definition alice :: CreateUserRequest where
  "alice = \<lparr> req_Username = ''alice'', req_Email = ''alice@x.com'' \<rparr>"

definition bob :: CreateUserRequest where
  "bob = \<lparr> req_Username = ''bob'', req_Email = ''bob@x.com'' \<rparr>"

definition env_pod_fails :: "string \<Rightarrow> Env" where
  "env_pod_fails uid = (env_ok uid)\<lparr>pods_create := Inl ''pods is forbidden''\<rparr>"

definition env_delete_fails :: "string \<Rightarrow> Env" where
  "env_delete_fails uid = (env_ok uid)\<lparr>pods_delete := Some ''connection refused''\<rparr>"

definition env_no_entropy :: "string \<Rightarrow> Env" where
  "env_no_entropy uid = (env_ok uid)\<lparr>rand_Read := None\<rparr>"

definition server_alice :: Server where
  "server_alice = run example_sys [POST_users (env_ok uuid_a) alice] (NewServer emptyCluster)"

definition server_alice_bob :: Server where
  "server_alice_bob =
     run example_sys [POST_users (env_ok uuid_a) alice, POST_users (env_ok uuid_b) bob]
       (NewServer emptyCluster)"

text \<open>A registry with counters and statuses set by hand, for the statistics.\<close>

definition stats_example :: Server where
  "stats_example =
     \<lparr> users =
         [(''u1'', (NewUser ''u1'' 0 ''carol'' ''carol@x.com'')\<lparr>DataUsage := 100, ConnectionCount := 2\<rparr>),
          (''u2'', (NewUser ''u2'' 0 ''dave'' ''dave@x.com'')
                     \<lparr>Status := ''suspended'', DataUsage := 250, ConnectionCount := 3\<rparr>),
          (''u3'', (NewUser ''u3'' 0 ''erin'' ''erin@x.com'')\<lparr>Status := ''Running''\<rparr>)],
       clientset = emptyCluster \<rparr>"

section \<open>What every reachable registry satisfies\<close>

text \<open>
  The keys are distinct and each is its user's identifier; no two stored users share a
  username or an email; every stored user passed the binding checks, carries the 44
  characters of a base64-encoded 32-byte private key, and has as its configuration the
  text rendered from its identifier and its keys.
\<close>

definition stored_ok :: "Sys \<Rightarrow> string \<Rightarrow> User \<Rightarrow> bool" where
  "stored_ok sys k u \<longleftrightarrow>
     k = ID u \<and> Username u \<noteq> [] \<and> Email u \<noteq> [] \<and> is_email sys (Email u)
     \<and> length (PrivateKey u) = 44
     \<and> generateWireGuardConfig sys u
          \<lparr> wg_PrivateKey = PrivateKey u, wg_PublicKey = PublicKey u \<rparr> = Inr (ConfigData u)"

definition registry_inv :: "Sys \<Rightarrow> (string \<times> User) list \<Rightarrow> bool" where
  "registry_inv sys xs \<longleftrightarrow>
     distinct (map fst xs) \<and> distinct (map (Username \<circ> snd) xs) \<and> distinct (map (Email \<circ> snd) xs)
     \<and> list_all (\<lambda>(k, u). stored_ok sys k u) xs"

section \<open>Lemmas\<close>

subsection \<open>The registry invariant is kept by every request\<close>

lemma ShouldBindJSON_None_iff:
  "ShouldBindJSON sys req = None \<longleftrightarrow>
     req_Username req \<noteq> [] \<and> req_Email req \<noteq> [] \<and> is_email sys (req_Email req)"
  by (simp add: ShouldBindJSON_def)

lemma userExists_iff:
  "userExists req xs \<longleftrightarrow>
     (\<exists>(k, u) \<in> set xs. Username u = req_Username req \<or> Email u = req_Email req)"
  by (induction req xs rule: userExists.induct) auto

lemma CreateUserVPN_keeps_identity:
  assumes "CreateUserVPN sys env user cl = (r, user1, cl1)"
  shows "ID user1 = ID user \<and> Username user1 = Username user \<and> Email user1 = Email user
       \<and> Status user1 = Status user \<and> DataUsage user1 = DataUsage user
       \<and> ConnectionCount user1 = ConnectionCount user"
  using assms
  by (auto simp: CreateUserVPN_def generateWireGuardConfig_def Let_def
           split: sum.splits prod.splits failure.splits)

lemma length_EncodeToString: "length (EncodeToString bs) = 4 * ((length bs + 2) div 3)"
proof (induction bs rule: EncodeToString.induct)
  case (4 a b c rest)
  have "(length (a # b # c # rest) + 2) div 3 = (length rest + 2) div 3 + 1"
    by simp
  with 4 show ?case by simp
qed simp_all

lemma length_fill32: "length (fill32 bs) = 32"
  by (simp add: fill32_def)

lemma fill32_id: "length bs = 32 \<Longrightarrow> fill32 bs = bs"
  by (simp add: fill32_def)

lemma CreateUserVPN_success:
  assumes "CreateUserVPN sys env user cl = (None, user1, cl1)"
  shows "\<exists>bs. rand_Read env = Some bs
            \<and> PrivateKey user1 = EncodeToString (fill32 bs)
            \<and> PublicKey user1 = EncodeToString (ScalarBaseMult sys (fill32 bs))
            \<and> PodName user1 = ''vpn-'' @ ID user
            \<and> Inr (ConfigData user1) =
                generateWireGuardConfig sys user1
                  \<lparr> wg_PrivateKey = PrivateKey user1, wg_PublicKey = PublicKey user1 \<rparr>"
proof -
  from assms obtain keys where k: "generateWireGuardKeys sys env = Inr keys"
    by (auto simp: CreateUserVPN_def split: sum.splits)
  then obtain bs where bs: "rand_Read env = Some bs"
    and keys: "keys = \<lparr> wg_PrivateKey = EncodeToString (fill32 bs),
                        wg_PublicKey = EncodeToString (ScalarBaseMult sys (fill32 bs)) \<rparr>"
    by (auto simp: generateWireGuardKeys_def Let_def split: option.splits)
  define user2 where "user2 = user\<lparr>PublicKey := wg_PublicKey keys, PrivateKey := wg_PrivateKey keys\<rparr>"
  obtain config where c: "generateWireGuardConfig sys user2 keys = Inr config"
    by (simp add: generateWireGuardConfig_def)
  from assms k c obtain pod where
    pod: "createVPNPod sys env (user2\<lparr>ConfigData := config\<rparr>) cl = (Inr pod, cl1)"
    and u1: "user1 = user2\<lparr>ConfigData := config, PodName := pod_Name pod, PodIP := pod_PodIP pod\<rparr>"
    by (auto simp: CreateUserVPN_def Let_def user2_def split: sum.splits prod.splits failure.splits)
  from pod have name: "pod_Name pod = ''vpn-'' @ ID user"
    by (auto simp: createVPNPod_def Let_def Pods_Create_def user2_def
             split: prod.splits option.splits sum.splits if_splits)
  have cfg: "generateWireGuardConfig sys user1 \<lparr> wg_PrivateKey = PrivateKey user1, wg_PublicKey = PublicKey user1 \<rparr>
               = generateWireGuardConfig sys user2 keys"
    by (simp add: generateWireGuardConfig_def userIP_def u1 user2_def keys)
  show ?thesis
    using bs name c cfg by (intro exI[of _ bs]) (simp add: u1 user2_def keys)
qed

lemma CreateUser_users:
  "users (snd (CreateUser sys env req s)) = users s \<or>
   (\<exists>user1. users (snd (CreateUser sys env req s)) = AList.update (ID user1) user1 (users s)
      \<and> ID user1 = uuid_New env \<and> Username user1 = req_Username req \<and> Email user1 = req_Email req
      \<and> length (PrivateKey user1) = 44
      \<and> generateWireGuardConfig sys user1
            \<lparr> wg_PrivateKey = PrivateKey user1, wg_PublicKey = PublicKey user1 \<rparr> = Inr (ConfigData user1)
      \<and> ShouldBindJSON sys req = None \<and> \<not> userExists req (users s))"
proof (cases "ShouldBindJSON sys req = None \<and> \<not> userExists req (users s)")
  case False
  then show ?thesis by (auto simp: CreateUser_def split: option.splits)
next
  case True
  obtain r user1 cl1 where vpn:
    "CreateUserVPN sys env (NewUser (uuid_New env) (time_Now env) (req_Username req) (req_Email req)) (clientset s) = (r, user1, cl1)"
    by (metis prod_cases3)
  from CreateUserVPN_keeps_identity[OF vpn]
  have id: "ID user1 = uuid_New env" "Username user1 = req_Username req" "Email user1 = req_Email req"
    by (simp_all add: NewUser_def)
  show ?thesis
  proof (cases r)
    case None
    with vpn have vpn':
      "CreateUserVPN sys env (NewUser (uuid_New env) (time_Now env) (req_Username req) (req_Email req)) (clientset s) = (None, user1, cl1)"
      by simp
    from CreateUserVPN_success[OF vpn'] obtain bs where "PrivateKey user1 = EncodeToString (fill32 bs)"
      and cfg: "Inr (ConfigData user1) =
                  generateWireGuardConfig sys user1
                    \<lparr> wg_PrivateKey = PrivateKey user1, wg_PublicKey = PublicKey user1 \<rparr>"
      by blast
    then have "length (PrivateKey user1) = 44"
      by (simp add: length_EncodeToString length_fill32)
    with None True vpn id cfg[symmetric] show ?thesis by (auto simp: CreateUser_def Let_def)
  next
    case (Some f)
    with True vpn show ?thesis by (cases f) (auto simp: CreateUser_def Let_def)
  qed
qed

lemma set_update_subset: "set (AList.update k v xs) \<subseteq> insert (k, v) (set xs)"
  by (induction xs) auto

lemma distinct_map_update:
  assumes "distinct (map f xs)" "f (k, v) \<notin> f ` set xs"
  shows "distinct (map f (AList.update k v xs))"
  using assms
proof (induction xs)
  case Nil then show ?case by simp
next
  case (Cons x xs)
  obtain k' v' where x: "x = (k', v')" by (cases x)
  from Cons.prems have dxs: "distinct (map f xs)" and fx: "f x \<notin> f ` set xs"
    and nv: "f (k, v) \<notin> f ` set xs" and ne: "f (k, v) \<noteq> f x"
    by auto
  show ?case
  proof (cases "k' = k")
    case True
    then have "AList.update k v (x # xs) = (k, v) # xs" by (simp add: x)
    with dxs nv show ?thesis by simp
  next
    case False
    then have upd: "AList.update k v (x # xs) = x # AList.update k v xs" by (simp add: x)
    have "f x \<notin> f ` set (AList.update k v xs)"
    proof
      assume "f x \<in> f ` set (AList.update k v xs)"
      then obtain y where y: "y \<in> set (AList.update k v xs)" "f x = f y" by blast
      from y(1) set_update_subset[of k v xs] have "y = (k, v) \<or> y \<in> set xs" by blast
      then show False
      proof
        assume "y = (k, v)" with y(2) ne show False by simp
      next
        assume "y \<in> set xs" with y(2) fx show False by blast
      qed
    qed
    moreover have "distinct (map f (AList.update k v xs))"
      using Cons.IH dxs nv by simp
    ultimately show ?thesis unfolding upd by simp
  qed
qed

lemma map_update_same:
  assumes "map_of xs k = Some u" "f (k, u') = f (k, u)"
  shows "map f (AList.update k u' xs) = map f xs"
  using assms by (induction xs) (auto split: if_splits)

lemma stored_ok_Status: "stored_ok sys k (u\<lparr>Status := st\<rparr>) = stored_ok sys k u"
  by (simp add: stored_ok_def generateWireGuardConfig_def userIP_def)

lemma list_all_update:
  assumes "list_all P xs" "P (k, v)"
  shows "list_all P (AList.update k v xs)"
  using assms set_update_subset[of k v xs] by (auto simp: list_all_iff)

lemma registry_inv_update_new:
  assumes "registry_inv sys xs" "stored_ok sys k u"
    "\<forall>(k', u') \<in> set xs. Username u' \<noteq> Username u \<and> Email u' \<noteq> Email u"
  shows "registry_inv sys (AList.update k u xs)"
proof -
  have d1: "distinct (map fst (AList.update k u xs))"
    using assms(1) by (simp add: registry_inv_def distinct_update)
  have d2: "distinct (map (Username \<circ> snd) (AList.update k u xs))"
    using assms(1,3) by (intro distinct_map_update) (auto simp: registry_inv_def)
  have d3: "distinct (map (Email \<circ> snd) (AList.update k u xs))"
    using assms(1,3) by (intro distinct_map_update) (auto simp: registry_inv_def)
  have d4: "list_all (\<lambda>(k, u). stored_ok sys k u) (AList.update k u xs)"
    using assms(1,2) by (intro list_all_update) (simp_all add: registry_inv_def)
  from d1 d2 d3 d4 show ?thesis by (simp add: registry_inv_def)
qed

lemma registry_inv_update_status:
  assumes "registry_inv sys xs" "map_of xs k = Some u"
  shows "registry_inv sys (AList.update k (u\<lparr>Status := st\<rparr>) xs)"
proof -
  have mem: "(k, u) \<in> set xs" using assms(2) by (rule map_of_SomeD)
  have d1: "distinct (map fst (AList.update k (u\<lparr>Status := st\<rparr>) xs))"
    using assms(1) by (simp add: registry_inv_def distinct_update)
  have d2: "map (Username \<circ> snd) (AList.update k (u\<lparr>Status := st\<rparr>) xs) = map (Username \<circ> snd) xs"
    using assms(2) by (intro map_update_same) auto
  have d3: "map (Email \<circ> snd) (AList.update k (u\<lparr>Status := st\<rparr>) xs) = map (Email \<circ> snd) xs"
    using assms(2) by (intro map_update_same) auto
  have "stored_ok sys k u"
    using assms(1) mem by (auto simp: registry_inv_def list_all_iff)
  then have "stored_ok sys k (u\<lparr>Status := st\<rparr>)"
    by (simp only: stored_ok_Status)
  then have d4: "list_all (\<lambda>(k, u). stored_ok sys k u) (AList.update k (u\<lparr>Status := st\<rparr>) xs)"
    using assms(1) by (intro list_all_update) (simp_all add: registry_inv_def)
  from d1 d2 d3 d4 assms(1) show ?thesis by (simp add: registry_inv_def)
qed

lemma registry_inv_delete:
  assumes "registry_inv sys xs"
  shows "registry_inv sys (AList.delete k xs)"
  using assms
  by (auto simp: registry_inv_def distinct_delete AList.delete_eq distinct_map_filter list_all_iff)

lemma registry_inv_CreateUser:
  assumes "registry_inv sys (users s)"
  shows "registry_inv sys (users (snd (CreateUser sys env req s)))"
  using CreateUser_users[of sys env req s]
proof (elim disjE exE conjE)
  assume "users (snd (CreateUser sys env req s)) = users s"
  with assms show ?thesis by simp
next
  fix user1
  assume h: "users (snd (CreateUser sys env req s)) = AList.update (ID user1) user1 (users s)"
    "Username user1 = req_Username req" "Email user1 = req_Email req"
    "ShouldBindJSON sys req = None" "\<not> userExists req (users s)" "length (PrivateKey user1) = 44"
    "generateWireGuardConfig sys user1
       \<lparr> wg_PrivateKey = PrivateKey user1, wg_PublicKey = PublicKey user1 \<rparr> = Inr (ConfigData user1)"
  have ok: "stored_ok sys (ID user1) user1"
    using h(2-4,6,7) by (simp add: stored_ok_def ShouldBindJSON_None_iff)
  have fresh: "\<forall>(k', u') \<in> set (users s). Username u' \<noteq> Username user1 \<and> Email u' \<noteq> Email user1"
    using h(2,3,5) by (auto simp: userExists_iff)
  have "registry_inv sys (AList.update (ID user1) user1 (users s))"
    using assms ok fresh by (rule registry_inv_update_new)
  with h(1) show ?thesis by simp
qed

lemma registry_inv_GetUser:
  assumes "registry_inv sys (users s)"
  shows "registry_inv sys (users (snd (GetUser env userID s)))"
proof (cases "map_of (users s) userID")
  case None
  with assms show ?thesis by (simp add: GetUser_def)
next
  case (Some user)
  obtain r cl where g: "GetPodStatus env (PodName user) (clientset s) = (r, cl)"
    by (cases "GetPodStatus env (PodName user) (clientset s)")
  show ?thesis
  proof (cases r)
    case (Inl e)
    with Some g assms show ?thesis by (simp add: GetUser_def)
  next
    case (Inr status)
    with Some g assms registry_inv_update_status[OF assms Some, of status]
    show ?thesis by (simp add: GetUser_def Let_def)
  qed
qed

lemma registry_inv_DeleteUser:
  assumes "registry_inv sys (users s)"
  shows "registry_inv sys (users (snd (DeleteUser env userID s)))"
proof (cases "map_of (users s) userID")
  case None
  with assms show ?thesis by (simp add: DeleteUser_def)
next
  case (Some user)
  with registry_inv_delete[OF assms, of userID] show ?thesis
    by (simp add: DeleteUser_def split: prod.splits)
qed

lemma registry_inv_handle:
  "registry_inv sys (users s) \<Longrightarrow> registry_inv sys (users (snd (handle sys r s)))"
  by (cases r) (simp_all add: registry_inv_CreateUser registry_inv_GetUser registry_inv_DeleteUser)

lemma registry_inv_run:
  "registry_inv sys (users s) \<Longrightarrow> registry_inv sys (users (run sys rs s))"
  by (induction rs arbitrary: s) (simp_all add: registry_inv_handle)

lemma registry_inv_reachable: "registry_inv sys (users (run sys rs (NewServer cl)))"
  by (rule registry_inv_run) (simp add: registry_inv_def NewServer_def)

lemma filter_unique:
  assumes "distinct (map f xs)" "x \<in> set xs" "P x" "\<And>y. y \<in> set xs \<Longrightarrow> P y \<Longrightarrow> f y = f x"
  shows "filter P xs = [x]"
  using assms
proof (induction xs)
  case Nil then show ?case by simp
next
  case (Cons a xs)
  from Cons.prems(1) have da: "f a \<notin> f ` set xs" and dxs: "distinct (map f xs)" by auto
  have same: "f y = f x" if "y \<in> set xs" "P y" for y
    by (rule Cons.prems(4)) (use that in simp_all)
  show ?case
  proof (cases "a = x")
    case True
    have "\<not> P y" if "y \<in> set xs" for y
    proof
      assume "P y"
      with that have "f y = f x" by (rule same)
      with that da True show False by (metis imageI)
    qed
    then have "filter P xs = []" by (simp add: filter_empty_conv)
    with True Cons.prems(3) show ?thesis by simp
  next
    case False
    with Cons.prems(2) have xin: "x \<in> set xs" by simp
    have "\<not> P a"
    proof
      assume "P a"
      have "f a = f x" by (rule Cons.prems(4)) (use \<open>P a\<close> in simp_all)
      with xin da show False by (metis imageI)
    qed
    moreover have "filter P xs = [x]"
      using dxs xin Cons.prems(3) same by (rule Cons.IH)
    ultimately show ?thesis by simp
  qed
qed

subsection \<open>Sums of 64-bit counters\<close>

lemma stb_add_right:
  "signed_take_bit n (a + signed_take_bit n b) = signed_take_bit n (a + (b::int))"
  by (metis signed_take_bit_add signed_take_bit_signed_take_bit min.idem)

lemma sint_sum_list:
  "sint (sum_list (ws :: 'a::len word list)) = signed_take_bit (LENGTH('a) - 1) (sum_list (map sint ws))"
proof (induction ws)
  case Nil show ?case by simp
next
  case (Cons w ws)
  have "sint (w + sum_list ws) = signed_take_bit (LENGTH('a) - 1) (sint w + sint (sum_list ws))"
    by (simp add: sint_word_ariths)
  also have "\<dots> = signed_take_bit (LENGTH('a) - 1) (sint w + sum_list (map sint ws))"
    unfolding Cons.IH by (rule stb_add_right)
  finally show ?case by simp
qed

lemma sint_sum_list_exact:
  fixes ws :: "64 word list"
  assumes "- (2 ^ 63) \<le> sum_list (map sint ws)" "sum_list (map sint ws) < 2 ^ 63"
  shows "sint (sum_list ws) = sum_list (map sint ws)"
  using assms by (simp add: sint_sum_list signed_take_bit_int_eq_self)

lemma sint_of_nat_exact:
  assumes "n < 2 ^ 63"
  shows "sint (of_nat n :: 64 word) = int n"
proof -
  from assms have "int n < 2 ^ 63" by (metis of_nat_less_numeral_power_cancel_iff)
  moreover have "- (2 ^ 63) \<le> int n" by (rule order_trans[of _ 0]) simp_all
  ultimately show ?thesis
    by (simp add: signed_of_nat signed_take_bit_int_eq_self)
qed

lemma range_users_totals:
  "TotalUsers (range_users xs st) = TotalUsers st + of_nat (length xs)
 \<and> TotalDataUsage (range_users xs st) = TotalDataUsage st + sum_list (map (DataUsage \<circ> snd) xs)
 \<and> TotalConnections (range_users xs st) = TotalConnections st + sum_list (map (ConnectionCount \<circ> snd) xs)
 \<and> ActiveUsers (range_users xs st) = ActiveUsers st + of_nat (length (filter (\<lambda>(k, u). Status u = ''active'') xs))
 \<and> InactiveUsers (range_users xs st) = InactiveUsers st + of_nat (length (filter (\<lambda>(k, u). Status u = ''inactive'') xs))
 \<and> SuspendedUsers (range_users xs st) = SuspendedUsers st + of_nat (length (filter (\<lambda>(k, u). Status u = ''suspended'') xs))"
  by (induction xs st rule: range_users.induct) (simp_all add: count_user_def Let_def)

subsection \<open>Reading responses and addresses\<close>

lemma private_key_field:
  "field ''private_key'' (JObject (user_json u)) =
     (if PrivateKey u = [] then None else Some (JString (PrivateKey u)))"
  by (simp add: field_def user_json_def omitempty_def)

lemma listed_users_ListUsers:
  "listed_users (ListUsers s) = map (\<lambda>(k, u). JObject (user_json u)) (users s)"
  by (simp add: listed_users_def ListUsers_def c_JSON_def field_def Let_def case_prod_beta)

lemma userIP_of_uuid: "length (ID u) = 36 \<Longrightarrow> userIP u = ''10.0.0.37''"
  by (simp add: userIP_def show_nat.simps digit_def)

subsection \<open>The decoder inverts the encoder\<close>

lemma index_of_nth:
  "distinct xs \<Longrightarrow> n < length xs \<Longrightarrow> index_of (xs ! n) xs i = Some (i + n)"
proof (induction xs arbitrary: n i)
  case Nil then show ?case by simp
next
  case (Cons x xs)
  show ?case
  proof (cases n)
    case 0 then show ?thesis by simp
  next
    case (Suc m)
    with Cons.prems have "xs ! m \<in> set xs" "x \<notin> set xs" by simp_all
    then have "x \<noteq> xs ! m" by blast
    with Suc Cons.IH[of m "Suc i"] Cons.prems show ?thesis by simp
  qed
qed

lemma distinct_encodeStd: "distinct encodeStd"
  by (simp add: encodeStd_def)

lemma length_encodeStd: "length encodeStd = 64"
  by (simp add: encodeStd_def)

lemma b64val_b64char: "n < 64 \<Longrightarrow> b64val (b64char n) = Some n"
  using index_of_nth[OF distinct_encodeStd, of n 0]
  by (simp add: b64val_def b64char_def length_encodeStd)

lemma b64char_not_pad: "b64char n \<noteq> CHR ''=''"
proof -
  have "CHR ''='' \<notin> set encodeStd" by (simp add: encodeStd_def)
  moreover have "b64char n \<in> set encodeStd"
    by (simp add: b64char_def length_encodeStd)
  ultimately show ?thesis by metis
qed

lemma unat_byte: "unat (a :: byte) < 256"
  using unsigned_less[of a, where 'a = nat] by simp

lemma sextets_bound:
  fixes x y z :: nat
  assumes "x < 256" "y < 256" "z < 256"
  shows "x div 4 < 64" "(x mod 4) * 16 + y div 16 < 64" "(y mod 16) * 4 + z div 64 < 64" "z mod 64 < 64"
    "(x mod 4) * 16 < 64" "(y mod 16) * 4 < 64"
  using assms by simp_all

lemma sextets_eq:
  fixes x y z :: nat
  assumes "x < 256" "y < 256" "z < 256"
  shows "(x div 4) * 4 + ((x mod 4) * 16 + y div 16) div 16 = x"
    and "(((x mod 4) * 16 + y div 16) mod 16) * 16 + ((y mod 16) * 4 + z div 64) div 4 = y"
    and "(((y mod 16) * 4 + z div 64) mod 4) * 64 + z mod 64 = z"
proof -
  from assms(2) have a: "((x mod 4) * 16 + y div 16) div 16 = x mod 4"
    and b: "((x mod 4) * 16 + y div 16) mod 16 = y div 16"
    by simp_all
  from assms(3) have c: "((y mod 16) * 4 + z div 64) div 4 = y mod 16"
    and d: "((y mod 16) * 4 + z div 64) mod 4 = z div 64"
    by simp_all
  show "(x div 4) * 4 + ((x mod 4) * 16 + y div 16) div 16 = x"
    unfolding a by simp
  show "(((x mod 4) * 16 + y div 16) mod 16) * 16 + ((y mod 16) * 4 + z div 64) div 4 = y"
    unfolding b c by simp
  show "(((y mod 16) * 4 + z div 64) mod 4) * 64 + z mod 64 = z"
    unfolding d by simp
qed


lemma quantum_sextets:
  fixes a b c :: byte
  shows "quantum (unat a div 4) ((unat a mod 4) * 16 + unat b div 16)
           ((unat b mod 16) * 4 + unat c div 64) (unat c mod 64) = [a, b, c]"
  unfolding quantum_def sextets_eq[OF unat_byte[of a] unat_byte[of b] unat_byte[of c]]
  by simp

lemma quantum_two:
  fixes a b :: byte
  shows "take 2 (quantum (unat a div 4) ((unat a mod 4) * 16 + unat b div 16) ((unat b mod 16) * 4) 0) = [a, b]"
proof -
  have z: "unat (0 :: byte) = 0" by simp
  from quantum_sextets[of a b 0]
  have "quantum (unat a div 4) ((unat a mod 4) * 16 + unat b div 16) ((unat b mod 16) * 4) 0 = [a, b, 0]"
    unfolding z by simp
  then show ?thesis by simp
qed

lemma quantum_one:
  fixes a :: byte
  shows "take 1 (quantum (unat a div 4) ((unat a mod 4) * 16) 0 0) = [a]"
proof -
  have z: "unat (0 :: byte) = 0" by simp
  from quantum_sextets[of a 0 0]
  have "quantum (unat a div 4) ((unat a mod 4) * 16) 0 0 = [a, 0, 0]"
    unfolding z by simp
  then show ?thesis by simp
qed

lemma decodeStd_EncodeToString: "decodeStd (EncodeToString bs) = Some bs"
proof (induction bs rule: EncodeToString.induct)
  case 1
  show ?case by simp
next
  case (2 a)
  note s = sextets_bound[OF unat_byte[of a] unat_byte[of a] unat_byte[of a]]
  show ?case
    using quantum_one[of a] by (simp add: b64val_b64char s)
next
  case (3 a b)
  note s = sextets_bound[OF unat_byte[of a] unat_byte[of b] unat_byte[of b]]
  show ?case
    using quantum_two[of a b] by (simp add: b64val_b64char b64char_not_pad s)
next
  case (4 a b c rest)
  note s = sextets_bound[OF unat_byte[of a] unat_byte[of b] unat_byte[of c]]
  show ?case
    by (simp add: b64val_b64char b64char_not_pad s quantum_sextets 4)
qed

subsection \<open>The order of a \<open>range\<close> loop does not matter\<close>

text \<open>Go leaves the order in which \<open>range\<close> visits a map open. The statistics and the
  duplicate check come out the same for every order of the same entries, and the data-usage
  total wraps around at 64 bits.\<close>

lemma sum_list_map_mset:
  fixes f :: "'a \<Rightarrow> 'b::comm_monoid_add"
  assumes "mset xs = mset ys"
  shows "sum_list (map f xs) = sum_list (map f ys)"
proof -
  from assms have "mset (map f xs) = mset (map f ys)" by (metis mset_map)
  then have "sum_mset (mset (map f xs)) = sum_mset (mset (map f ys))" by (rule arg_cong)
  then show ?thesis by (simp only: sum_mset_sum_list)
qed

lemma length_filter_mset:
  assumes "mset xs = mset ys"
  shows "length (filter P xs) = length (filter P ys)"
proof -
  from assms have "mset (filter P xs) = mset (filter P ys)" by (metis mset_filter)
  then show ?thesis by (rule mset_eq_length)
qed

lemma range_users_order:
  assumes "mset xs = mset ys"
  shows "range_users xs st = range_users ys st"
proof (rule UserStats.equality)
  note x = range_users_totals[of xs st] and y = range_users_totals[of ys st]
  from assms have len: "length xs = length ys" by (rule mset_eq_length)
  show "TotalUsers (range_users xs st) = TotalUsers (range_users ys st)"
    using x y len by simp
  show "TotalDataUsage (range_users xs st) = TotalDataUsage (range_users ys st)"
    using x y sum_list_map_mset[OF assms, of "DataUsage \<circ> snd"] by simp
  show "TotalConnections (range_users xs st) = TotalConnections (range_users ys st)"
    using x y sum_list_map_mset[OF assms, of "ConnectionCount \<circ> snd"] by simp
  show "ActiveUsers (range_users xs st) = ActiveUsers (range_users ys st)"
    using x y length_filter_mset[OF assms, of "\<lambda>(k, u). Status u = ''active''"] by simp
  show "InactiveUsers (range_users xs st) = InactiveUsers (range_users ys st)"
    using x y length_filter_mset[OF assms, of "\<lambda>(k, u). Status u = ''inactive''"] by simp
  show "SuspendedUsers (range_users xs st) = SuspendedUsers (range_users ys st)"
    using x y length_filter_mset[OF assms, of "\<lambda>(k, u). Status u = ''suspended''"] by simp
  show "UserStats.more (range_users xs st) = UserStats.more (range_users ys st)"
    by simp
qed

lemma calculateStats_order:
  "mset (users s) = mset (users s') \<Longrightarrow> calculateStats s = calculateStats s'"
  unfolding calculateStats_def by (rule range_users_order)

lemma userExists_order:
  "mset xs = mset ys \<Longrightarrow> userExists req xs = userExists req ys"
  unfolding userExists_iff by (simp only: mset_eq_setD[of xs ys])


lemma TotalDataUsage_wraps:
  "sint (TotalDataUsage (calculateStats
      \<lparr> users = [(''u1'', (NewUser ''u1'' 0 ''carol'' ''carol@x.com'')\<lparr>DataUsage := 2 ^ 62\<rparr>),
                  (''u2'', (NewUser ''u2'' 0 ''dave'' ''dave@x.com'')\<lparr>DataUsage := 2 ^ 62\<rparr>)],
        clientset = emptyCluster \<rparr>)) = - (2 ^ 63)"
  by (simp add: calculateStats_def count_user_def NewUser_def)

section \<open>Claims\<close>

text \<open>
  C1. Stored instances are meant to have pairwise distinct addresses; the source says so
  where it computes the address. The address is \<open>10.0.0.\<close> followed by the length of the
  identifier modulo 254, plus one, and every identifier \<open>uuid.New().String()\<close> returns has
  36 characters. Creating \<open>alice\<close> and \<open>bob\<close> stores two instances under different
  identifiers, both with the address \<open>10.0.0.37\<close>, and the stored configuration of each is
  the text rendered with that address.
\<close>

theorem assignedAddress_collides:
  "map fst (users server_alice_bob) = [uuid_a, uuid_b]
 \<and> map (Username \<circ> snd) (users server_alice_bob) = [''alice'', ''bob'']
 \<and> map (userIP \<circ> snd) (users server_alice_bob) = [''10.0.0.37'', ''10.0.0.37'']
 \<and> map (\<lambda>(k, u). generateWireGuardConfig example_sys u
            \<lparr> wg_PrivateKey = PrivateKey u, wg_PublicKey = PublicKey u \<rparr> = Inr (ConfigData u))
       (users server_alice_bob) = [True, True]"
  by code_simp

(* C3 *)

text \<open>
  C2. In every state the server reaches from \<open>NewServer\<close> by serving requests, a create
  request whose username and email are those of a stored user is answered 409, the server
  is left as it was, and the registry holds exactly one record with that identity: the
  one that was there.
\<close>

theorem CreateUser_duplicate_conflict:
  assumes "s = run sys rs (NewServer cl)"
    and "(k, u) \<in> set (users s)"
    and "Username u = req_Username req" and "Email u = req_Email req"
  shows "CreateUser sys env req s = (c_JSON 409 [(''error'', JString ''User already exists'')], s)
       \<and> filter (\<lambda>(k', u'). Username u' = req_Username req \<and> Email u' = req_Email req)
            (users (snd (CreateUser sys env req s))) = [(k, u)]"
proof -
  have inv: "registry_inv sys (users s)"
    unfolding assms(1) by (rule registry_inv_reachable)
  have bind: "ShouldBindJSON sys req = None"
    using inv assms(2-4) by (auto simp: registry_inv_def list_all_iff stored_ok_def ShouldBindJSON_None_iff)
  have ex: "userExists req (users s)"
    using assms(2-4) by (auto simp: userExists_iff)
  have res: "CreateUser sys env req s = (c_JSON 409 [(''error'', JString ''User already exists'')], s)"
    using bind ex by (simp add: CreateUser_def)
  have "filter (\<lambda>(k', u'). Username u' = req_Username req \<and> Email u' = req_Email req) (users s) = [(k, u)]"
    using inv assms(2-4)
    by (intro filter_unique[where f = "Username \<circ> snd"]) (auto simp: registry_inv_def)
  with res show ?thesis by simp
qed

theorem CreateUser_duplicate_conflict_witness:
  "(uuid_a, snd (hd (users server_alice))) \<in> set (users server_alice)
   \<and> Username (snd (hd (users server_alice))) = req_Username alice
   \<and> Email (snd (hd (users server_alice))) = req_Email alice
   \<and> CreateUser example_sys (env_ok uuid_b) alice server_alice
       = (c_JSON 409 [(''error'', JString ''User already exists'')], server_alice)
   \<and> filter (\<lambda>(k', u'). Username u' = req_Username alice \<and> Email u' = req_Email alice)
        (users (snd (CreateUser example_sys (env_ok uuid_b) alice server_alice)))
       = [(uuid_a, snd (hd (users server_alice)))]"
proof -
  have m: "(uuid_a, snd (hd (users server_alice))) \<in> set (users server_alice)"
    by code_simp
  have u: "Username (snd (hd (users server_alice))) = req_Username alice"
    by code_simp
  have e: "Email (snd (hd (users server_alice))) = req_Email alice"
    by code_simp
  from CreateUser_duplicate_conflict[OF server_alice_def m u e, of "env_ok uuid_b"] m u e
  show ?thesis by blast
qed

text \<open>
  C3, as claimed: the list response carries no private key. After \<open>alice\<close> is created,
  the one object that \<open>ListUsers\<close> returns has a \<open>private_key\<close> field, and it holds her
  key.
\<close>

theorem ListUsers_exposes_private_key:
  "map (field ''private_key'') (listed_users (ListUsers server_alice))
     = [Some (JString ''AAECAwQFBgcICQoLDA0ODxAREhMUFRYXGBkaGxwdHh8='')]"
  by code_simp

text \<open>
  C3, amended. \<open>ListUsers\<close> returns one object per stored record with all the fields the
  struct tags name; \<open>private_key\<close> is left out exactly when the key is empty. In every
  state the server reaches, each stored record has a 44-character private key and the
  list response carries it. \<open>GetUserConfig\<close> answers with the stored configuration text,
  which is the rendering that embeds the same key.
\<close>

theorem ListUsers_returns_full_records:
  assumes "s = run sys rs (NewServer cl)"
  shows "listed_users (ListUsers s) = map (\<lambda>(k, u). JObject (user_json u)) (users s)
       \<and> (\<forall>u. field ''private_key'' (JObject (user_json u)) =
                 (if PrivateKey u = [] then None else Some (JString (PrivateKey u))))
       \<and> (\<forall>(k, u) \<in> set (users s).
             length (PrivateKey u) = 44
           \<and> field ''private_key'' (JObject (user_json u)) = Some (JString (PrivateKey u))
           \<and> GetUserConfig k s =
               \<lparr> code = 200,
                 headers = [(''Content-Disposition'', ''attachment; filename=vpn-'' @ Username u @ ''.conf''),
                            (''Content-Type'', ''text/plain'')],
                 body = Plain (ConfigData u) \<rparr>
           \<and> generateWireGuardConfig sys u
                \<lparr> wg_PrivateKey = PrivateKey u, wg_PublicKey = PublicKey u \<rparr> = Inr (ConfigData u))"
proof -
  have inv: "registry_inv sys (users s)"
    unfolding assms by (rule registry_inv_reachable)
  have per: "length (PrivateKey u) = 44
           \<and> field ''private_key'' (JObject (user_json u)) = Some (JString (PrivateKey u))
           \<and> GetUserConfig k s =
               \<lparr> code = 200,
                 headers = [(''Content-Disposition'', ''attachment; filename=vpn-'' @ Username u @ ''.conf''),
                            (''Content-Type'', ''text/plain'')],
                 body = Plain (ConfigData u) \<rparr>
           \<and> generateWireGuardConfig sys u
                \<lparr> wg_PrivateKey = PrivateKey u, wg_PublicKey = PublicKey u \<rparr> = Inr (ConfigData u)"
    if mem: "(k, u) \<in> set (users s)" for k u
  proof -
    from inv mem have ok: "stored_ok sys k u" and dist: "distinct (map fst (users s))"
      by (auto simp: registry_inv_def list_all_iff)
    from ok have len: "length (PrivateKey u) = 44"
      and cfg: "generateWireGuardConfig sys u
                  \<lparr> wg_PrivateKey = PrivateKey u, wg_PublicKey = PublicKey u \<rparr> = Inr (ConfigData u)"
      by (simp_all add: stored_ok_def)
    from len have ne: "PrivateKey u \<noteq> []" by auto
    from cfg have cne: "ConfigData u \<noteq> []"
      by (auto simp: generateWireGuardConfig_def)
    from dist mem have look: "map_of (users s) k = Some u" by (rule map_of_is_SomeI)
    show ?thesis
      using len ne cfg cne look by (simp add: private_key_field GetUserConfig_def)
  qed
  from per listed_users_ListUsers[of s] private_key_field show ?thesis by blast
qed

theorem ListUsers_returns_full_records_witness:
  "(uuid_a, snd (hd (users server_alice))) \<in> set (users server_alice)
 \<and> length (PrivateKey (snd (hd (users server_alice)))) = 44
 \<and> field ''private_key'' (JObject (user_json (snd (hd (users server_alice)))))
     = Some (JString (PrivateKey (snd (hd (users server_alice)))))
 \<and> body (GetUserConfig uuid_a server_alice) = Plain (ConfigData (snd (hd (users server_alice))))"
proof -
  have m: "(uuid_a, snd (hd (users server_alice))) \<in> set (users server_alice)"
    by code_simp
  from ListUsers_returns_full_records[OF server_alice_def]
  have "\<forall>(k, u) \<in> set (users server_alice).
             length (PrivateKey u) = 44
           \<and> field ''private_key'' (JObject (user_json u)) = Some (JString (PrivateKey u))
           \<and> GetUserConfig k server_alice =
               \<lparr> code = 200,
                 headers = [(''Content-Disposition'', ''attachment; filename=vpn-'' @ Username u @ ''.conf''),
                            (''Content-Type'', ''text/plain'')],
                 body = Plain (ConfigData u) \<rparr>
           \<and> generateWireGuardConfig example_sys u
                \<lparr> wg_PrivateKey = PrivateKey u, wg_PublicKey = PublicKey u \<rparr> = Inr (ConfigData u)"
    by blast
  with m show ?thesis by fastforce
qed

text \<open>
  C4, as claimed: a failed pod creation leaves the instance in status Failed and the
  ConfigMap deleted. With \<open>Pods.Create\<close> failing for \<open>alice\<close> on a fresh server, the answer
  is 500, the registry stays empty (no record, so none in status Failed), the ConfigMap
  created a step earlier is still in the cluster, and the only calls sent are the two
  creations.
\<close>

theorem CreateUser_pod_failure_leaves_artifact:
  "code (fst (CreateUser example_sys (env_pod_fails uuid_a) alice (NewServer emptyCluster))) = 500
 \<and> users (snd (CreateUser example_sys (env_pod_fails uuid_a) alice (NewServer emptyCluster))) = []
 \<and> map fst (configMaps (clientset (snd (CreateUser example_sys (env_pod_fails uuid_a) alice (NewServer emptyCluster)))))
     = [''vpn-config-3f2b8c1e-7a4d-4e6b-9c0f-1d2e3f4a5b6c'']
 \<and> calls (clientset (snd (CreateUser example_sys (env_pod_fails uuid_a) alice (NewServer emptyCluster))))
     = [ConfigMapsCreate ''vpn-config-3f2b8c1e-7a4d-4e6b-9c0f-1d2e3f4a5b6c'',
        PodsCreate ''vpn-3f2b8c1e-7a4d-4e6b-9c0f-1d2e3f4a5b6c'']"
  by code_simp

(* C5 *)

text \<open>
  C4, amended. When the attempt gets as far as \<open>Pods.Create\<close> and that call fails,
  \<open>CreateUser\<close> answers 500 with \<open>Failed to create VPN\<close> and stores no record: the
  registry is unchanged. The calls sent are the creation of the ConfigMap and of the pod
  and nothing after them, so the ConfigMap of the attempt is still present and the pods
  are as before. No address is reserved anywhere, so none is returned.
\<close>

theorem CreateUser_pod_creation_fails:
  assumes "ShouldBindJSON sys req = None" and "\<not> userExists req (users s)"
    and "rand_Read env = Some bs" and "configmaps_create env = None"
    and "quantity_ok sys (GetString sys ''vpn.pod_cpu_request'')"
    and "quantity_ok sys (GetString sys ''vpn.pod_memory_request'')"
    and "quantity_ok sys (GetString sys ''vpn.pod_cpu_limit'')"
    and "quantity_ok sys (GetString sys ''vpn.pod_memory_limit'')"
    and "pods_create env = Inl e"
  shows "fst (CreateUser sys env req s) = c_JSON 500 [(''error'', JString ''Failed to create VPN'')]
       \<and> users (snd (CreateUser sys env req s)) = users s
       \<and> calls (clientset (snd (CreateUser sys env req s)))
           = calls (clientset s) @ [ConfigMapsCreate (''vpn-config-'' @ uuid_New env),
                                   PodsCreate (''vpn-'' @ uuid_New env)]
       \<and> map_of (configMaps (clientset (snd (CreateUser sys env req s)))) (''vpn-config-'' @ uuid_New env) \<noteq> None
       \<and> pods (clientset (snd (CreateUser sys env req s))) = pods (clientset s)"
  using assms
  by (simp add: CreateUser_def CreateUserVPN_def generateWireGuardKeys_def generateWireGuardConfig_def
        createVPNPod_def ConfigMaps_Create_def Pods_Create_def NewUser_def Let_def update_conv')

theorem CreateUser_pod_creation_fails_witness:
  "ShouldBindJSON example_sys bob = None
 \<and> \<not> userExists bob (users server_alice)
 \<and> pods_create (env_pod_fails uuid_b) = Inl ''pods is forbidden''
 \<and> fst (CreateUser example_sys (env_pod_fails uuid_b) bob server_alice)
     = c_JSON 500 [(''error'', JString ''Failed to create VPN'')]
 \<and> users (snd (CreateUser example_sys (env_pod_fails uuid_b) bob server_alice)) = users server_alice
 \<and> calls (clientset (snd (CreateUser example_sys (env_pod_fails uuid_b) bob server_alice)))
     = calls (clientset server_alice)
       @ [ConfigMapsCreate (''vpn-config-'' @ uuid_b), PodsCreate (''vpn-'' @ uuid_b)]"
proof -
  have b: "ShouldBindJSON example_sys bob = None" by code_simp
  have x: "\<not> userExists bob (users server_alice)" by code_simp
  have r: "rand_Read (env_pod_fails uuid_b) = Some (map of_nat [0..<32])"
    by (simp add: env_pod_fails_def env_ok_def)
  have c: "configmaps_create (env_pod_fails uuid_b) = None"
    by (simp add: env_pod_fails_def env_ok_def)
  have q: "quantity_ok example_sys (GetString example_sys ''vpn.pod_cpu_request'')"
    "quantity_ok example_sys (GetString example_sys ''vpn.pod_memory_request'')"
    "quantity_ok example_sys (GetString example_sys ''vpn.pod_cpu_limit'')"
    "quantity_ok example_sys (GetString example_sys ''vpn.pod_memory_limit'')"
    by (simp_all add: example_sys_def viper_defaults_def)
  have p: "pods_create (env_pod_fails uuid_b) = Inl ''pods is forbidden''"
    by (simp add: env_pod_fails_def)
  have u: "uuid_New (env_pod_fails uuid_b) = uuid_b"
    by (simp add: env_pod_fails_def env_ok_def)
  from CreateUser_pod_creation_fails[OF b x r c q p, unfolded u] b x p
  show ?thesis by blast
qed

text \<open>
  C5, as claimed: when the pod deletion errors the registry entry stays and the caller
  sees the error. With \<open>Pods.Delete\<close> failing for the stored \<open>alice\<close>, \<open>DeleteUserVPN\<close>
  returns the error, yet \<open>DeleteUser\<close> answers 200 and the registry is empty afterwards,
  while the pod is still in the cluster.
\<close>

theorem DeleteUser_drops_entry_on_error:
  "map fst (users server_alice) = [uuid_a]
 \<and> fst (DeleteUserVPN (env_delete_fails uuid_a) (snd (hd (users server_alice))) (clientset server_alice))
     = Some ''failed to delete VPN pod: connection refused''
 \<and> code (fst (DeleteUser (env_delete_fails uuid_a) uuid_a server_alice)) = 200
 \<and> users (snd (DeleteUser (env_delete_fails uuid_a) uuid_a server_alice)) = []
 \<and> map fst (pods (clientset (snd (DeleteUser (env_delete_fails uuid_a) uuid_a server_alice))))
     = [''vpn-3f2b8c1e-7a4d-4e6b-9c0f-1d2e3f4a5b6c'']"
  by code_simp

(* C1 *)

text \<open>
  C5, amended. For a stored user with a pod name, when \<open>Pods.Delete\<close> errors,
  \<open>DeleteUserVPN\<close> returns that error to \<open>DeleteUser\<close>, which does not pass it on: the
  answer is 200 with the success message and the entry is removed from the registry.
\<close>

theorem DeleteUser_ignores_adapter_error:
  assumes "map_of (users s) userID = Some user" and "PodName user \<noteq> []"
    and "pods_delete env = Some e"
  shows "fst (DeleteUserVPN env user (clientset s)) = Some (''failed to delete VPN pod: '' @ e)
       \<and> fst (DeleteUser env userID s) = c_JSON 200 [(''message'', JString ''User deleted successfully'')]
       \<and> users (snd (DeleteUser env userID s)) = AList.delete userID (users s)
       \<and> map_of (users (snd (DeleteUser env userID s))) userID = None"
  using assms
  by (simp add: DeleteUser_def DeleteUserVPN_def Pods_Delete_def Let_def delete_conv' split: prod.splits)

theorem DeleteUser_ignores_adapter_error_witness:
  "map_of (users server_alice) uuid_a = Some (snd (hd (users server_alice)))
 \<and> PodName (snd (hd (users server_alice))) \<noteq> []
 \<and> pods_delete (env_delete_fails uuid_a) = Some ''connection refused''
 \<and> fst (DeleteUserVPN (env_delete_fails uuid_a) (snd (hd (users server_alice))) (clientset server_alice))
     = Some (''failed to delete VPN pod: '' @ ''connection refused'')
 \<and> fst (DeleteUser (env_delete_fails uuid_a) uuid_a server_alice)
     = c_JSON 200 [(''message'', JString ''User deleted successfully'')]
 \<and> map_of (users (snd (DeleteUser (env_delete_fails uuid_a) uuid_a server_alice))) uuid_a = None"
proof -
  have m: "map_of (users server_alice) uuid_a = Some (snd (hd (users server_alice)))"
    by code_simp
  have n: "PodName (snd (hd (users server_alice))) \<noteq> []" by code_simp
  have d: "pods_delete (env_delete_fails uuid_a) = Some ''connection refused''"
    by (simp add: env_delete_fails_def)
  from DeleteUser_ignores_adapter_error[OF m n d] m n d show ?thesis by blast
qed

text \<open>
  C6. Deleting an identifier that is not in the registry answers 404 with
  \<open>User not found\<close> and leaves the server, registry and cluster, exactly as it was. The
  handler has no other outcome on this path: no call is sent and nothing panics.
\<close>

theorem DeleteUser_absent:
  "map_of (users s) userID = None \<Longrightarrow>
   DeleteUser env userID s = (c_JSON 404 [(''error'', JString ''User not found'')], s)"
  by (simp add: DeleteUser_def)

theorem DeleteUser_absent_witness:
  "map_of (users server_alice) uuid_b = None
 \<and> DeleteUser (env_ok uuid_b) uuid_b server_alice
      = (c_JSON 404 [(''error'', JString ''User not found'')], server_alice)"
proof -
  have a: "map_of (users server_alice) uuid_b = None" by code_simp
  from DeleteUser_absent[OF a, of "env_ok uuid_b"] a show ?thesis by simp
qed

(* C8 *)

text \<open>
  C7. \<open>generateWireGuardKeys\<close> returns an error exactly when \<open>rand.Read\<close> does. Otherwise
  the private key is the base64 text of the 32-byte buffer that \<open>rand.Read\<close> filled (the
  delivered bytes themselves when there are 32 of them), and the public key is the base64
  text of \<open>ScalarBaseMult\<close> applied to that buffer. So whenever keys are returned, the
  private key text decodes to a 32-byte scalar and the public key text decodes to
  \<open>ScalarBaseMult\<close> of that scalar.
\<close>

theorem generateWireGuardKeys_result:
  "(isl (generateWireGuardKeys sys env) \<longleftrightarrow> rand_Read env = None)
 \<and> (\<forall>bs. rand_Read env = Some bs \<longrightarrow>
       length (fill32 bs) = 32 \<and> (length bs = 32 \<longrightarrow> fill32 bs = bs)
     \<and> generateWireGuardKeys sys env =
         Inr \<lparr> wg_PrivateKey = EncodeToString (fill32 bs),
               wg_PublicKey = EncodeToString (ScalarBaseMult sys (fill32 bs)) \<rparr>)
 \<and> (\<forall>keys. generateWireGuardKeys sys env = Inr keys \<longrightarrow>
       (\<exists>privateKey. length privateKey = 32
          \<and> decodeStd (wg_PrivateKey keys) = Some privateKey
          \<and> decodeStd (wg_PublicKey keys) = Some (ScalarBaseMult sys privateKey)))"
proof (intro conjI allI impI)
  show "isl (generateWireGuardKeys sys env) \<longleftrightarrow> rand_Read env = None"
    by (simp add: generateWireGuardKeys_def Let_def split: option.splits)
next
  fix bs assume "rand_Read env = Some bs"
  then show "generateWireGuardKeys sys env =
         Inr \<lparr> wg_PrivateKey = EncodeToString (fill32 bs),
               wg_PublicKey = EncodeToString (ScalarBaseMult sys (fill32 bs)) \<rparr>"
    by (simp add: generateWireGuardKeys_def Let_def)
next
  fix bs show "length (fill32 bs) = 32" by (rule length_fill32)
next
  fix bs :: "byte list" assume "length bs = 32"
  then show "fill32 bs = bs" by (rule fill32_id)
next
  fix keys assume k: "generateWireGuardKeys sys env = Inr keys"
  then obtain bs where "rand_Read env = Some bs"
    and "keys = \<lparr> wg_PrivateKey = EncodeToString (fill32 bs),
                   wg_PublicKey = EncodeToString (ScalarBaseMult sys (fill32 bs)) \<rparr>"
    by (auto simp: generateWireGuardKeys_def Let_def split: option.splits)
  then have "length (fill32 bs) = 32
          \<and> decodeStd (wg_PrivateKey keys) = Some (fill32 bs)
          \<and> decodeStd (wg_PublicKey keys) = Some (ScalarBaseMult sys (fill32 bs))"
    by (simp add: decodeStd_EncodeToString length_fill32)
  then show "\<exists>privateKey. length privateKey = 32
          \<and> decodeStd (wg_PrivateKey keys) = Some privateKey
          \<and> decodeStd (wg_PublicKey keys) = Some (ScalarBaseMult sys privateKey)"
    by blast
qed

theorem generateWireGuardKeys_result_witness:
  "rand_Read (env_ok uuid_a) = Some (map of_nat [0..<32])
 \<and> generateWireGuardKeys example_sys (env_ok uuid_a)
     = Inr \<lparr> wg_PrivateKey = ''AAECAwQFBgcICQoLDA0ODxAREhMUFRYXGBkaGxwdHh8='',
             wg_PublicKey = ''CQoLDA0ODxAREhMUFRYXGBkaGxwdHh8gISIjJCUmJyg='' \<rparr>
 \<and> rand_Read (env_no_entropy uuid_a) = None
 \<and> isl (generateWireGuardKeys example_sys (env_no_entropy uuid_a))"
proof -
  have r: "rand_Read (env_ok uuid_a) = Some (map of_nat [0..<32])"
    by (simp add: env_ok_def)
  have n: "rand_Read (env_no_entropy uuid_a) = None"
    by (simp add: env_no_entropy_def)
  have p: "EncodeToString (fill32 (map of_nat [0..<32])) = ''AAECAwQFBgcICQoLDA0ODxAREhMUFRYXGBkaGxwdHh8=''"
    by code_simp
  have q: "EncodeToString (ScalarBaseMult example_sys (fill32 (map of_nat [0..<32])))
             = ''CQoLDA0ODxAREhMUFRYXGBkaGxwdHh8gISIjJCUmJyg=''"
    by code_simp
  from generateWireGuardKeys_result[of example_sys "env_ok uuid_a"] r
  have "generateWireGuardKeys example_sys (env_ok uuid_a) =
         Inr \<lparr> wg_PrivateKey = EncodeToString (fill32 (map of_nat [0..<32])),
               wg_PublicKey = EncodeToString (ScalarBaseMult example_sys (fill32 (map of_nat [0..<32]))) \<rparr>"
    by blast
  moreover from generateWireGuardKeys_result[of example_sys "env_no_entropy uuid_a"] n
  have "isl (generateWireGuardKeys example_sys (env_no_entropy uuid_a))"
    by blast
  ultimately show ?thesis using r n by (simp only: p q simp_thms)
qed

text \<open>
  C8. The rendered configuration is a function of the user's identifier, the keys and the
  two configuration values \<open>vpn.endpoint\<close> and \<open>vpn.wireguard_port\<close>: two calls that
  agree on these return the same text, whatever else differs in the user or in the
  configuration, and the call never returns an error.
\<close>

theorem generateWireGuardConfig_deterministic:
  assumes "ID user = ID user'" and "keys = keys'"
    and "GetString sys ''vpn.endpoint'' = GetString sys' ''vpn.endpoint''"
    and "GetString sys ''vpn.wireguard_port'' = GetString sys' ''vpn.wireguard_port''"
  shows "generateWireGuardConfig sys user keys = generateWireGuardConfig sys' user' keys'
       \<and> \<not> isl (generateWireGuardConfig sys user keys)"
  using assms by (simp add: generateWireGuardConfig_def userIP_def)

(* C7 *)

theorem generateWireGuardConfig_deterministic_witness:
  "ID (NewUser uuid_a 0 ''alice'' ''alice@x.com'') = ID (NewUser uuid_a 5 ''bob'' ''bob@x.com'')
 \<and> GetString example_sys ''vpn.endpoint'' = GetString (example_sys\<lparr>quantity_ok := (\<lambda>q. True)\<rparr>) ''vpn.endpoint''
 \<and> generateWireGuardConfig example_sys (NewUser uuid_a 0 ''alice'' ''alice@x.com'')
        \<lparr> wg_PrivateKey = ''priv'', wg_PublicKey = ''pub'' \<rparr>
    = generateWireGuardConfig (example_sys\<lparr>quantity_ok := (\<lambda>q. True)\<rparr>) (NewUser uuid_a 5 ''bob'' ''bob@x.com'')
        \<lparr> wg_PrivateKey = ''priv'', wg_PublicKey = ''pub'' \<rparr>"
proof -
  have i: "ID (NewUser uuid_a 0 ''alice'' ''alice@x.com'') = ID (NewUser uuid_a 5 ''bob'' ''bob@x.com'')"
    by (simp add: NewUser_def)
  have e: "GetString example_sys ''vpn.endpoint'' = GetString (example_sys\<lparr>quantity_ok := (\<lambda>q. True)\<rparr>) ''vpn.endpoint''"
    by simp
  have p: "GetString example_sys ''vpn.wireguard_port'' = GetString (example_sys\<lparr>quantity_ok := (\<lambda>q. True)\<rparr>) ''vpn.wireguard_port''"
    by simp
  from generateWireGuardConfig_deterministic[OF i refl e p] i e show ?thesis by blast
qed

text \<open>
  C9. \<open>calculateStats\<close> counts every stored record once: the total is the number of
  records, the data-usage and connection totals are the sums of the records' counters, and
  the active, inactive and suspended counts are the numbers of records with that status;
  \<open>GetStats\<close> answers with exactly these. The sums are Go's: 64-bit and wrapping. Read as
  signed numbers they are the exact integer sums whenever those fit in 64 bits, and the
  counts are exact below \<open>2 ^ 63\<close> records.
\<close>

theorem calculateStats_totals:
  "TotalUsers (calculateStats s) = of_nat (length (users s))
 \<and> TotalDataUsage (calculateStats s) = sum_list (map (DataUsage \<circ> snd) (users s))
 \<and> TotalConnections (calculateStats s) = sum_list (map (ConnectionCount \<circ> snd) (users s))
 \<and> ActiveUsers (calculateStats s) = of_nat (length (filter (\<lambda>(k, u). Status u = ''active'') (users s)))
 \<and> InactiveUsers (calculateStats s) = of_nat (length (filter (\<lambda>(k, u). Status u = ''inactive'') (users s)))
 \<and> SuspendedUsers (calculateStats s) = of_nat (length (filter (\<lambda>(k, u). Status u = ''suspended'') (users s)))
 \<and> GetStats s = c_JSON 200 [(''stats'', JObject (stats_json (calculateStats s)))]
 \<and> (length (users s) < 2 ^ 63 \<longrightarrow>
      sint (TotalUsers (calculateStats s)) = int (length (users s))
    \<and> sint (ActiveUsers (calculateStats s)) = int (length (filter (\<lambda>(k, u). Status u = ''active'') (users s)))
    \<and> sint (InactiveUsers (calculateStats s)) = int (length (filter (\<lambda>(k, u). Status u = ''inactive'') (users s)))
    \<and> sint (SuspendedUsers (calculateStats s)) = int (length (filter (\<lambda>(k, u). Status u = ''suspended'') (users s))))
 \<and> (- (2 ^ 63) \<le> sum_list (map (sint \<circ> DataUsage \<circ> snd) (users s))
      \<and> sum_list (map (sint \<circ> DataUsage \<circ> snd) (users s)) < 2 ^ 63 \<longrightarrow>
      sint (TotalDataUsage (calculateStats s)) = sum_list (map (sint \<circ> DataUsage \<circ> snd) (users s)))
 \<and> (- (2 ^ 63) \<le> sum_list (map (sint \<circ> ConnectionCount \<circ> snd) (users s))
      \<and> sum_list (map (sint \<circ> ConnectionCount \<circ> snd) (users s)) < 2 ^ 63 \<longrightarrow>
      sint (TotalConnections (calculateStats s)) = sum_list (map (sint \<circ> ConnectionCount \<circ> snd) (users s)))"
proof -
  let ?z = "\<lparr> TotalUsers = 0, ActiveUsers = 0, InactiveUsers = 0, SuspendedUsers = 0,
              TotalDataUsage = 0, TotalConnections = 0 \<rparr>"
  note t = range_users_totals[of "users s" ?z]
  have w: "TotalUsers (calculateStats s) = of_nat (length (users s))"
    "TotalDataUsage (calculateStats s) = sum_list (map (DataUsage \<circ> snd) (users s))"
    "TotalConnections (calculateStats s) = sum_list (map (ConnectionCount \<circ> snd) (users s))"
    "ActiveUsers (calculateStats s) = of_nat (length (filter (\<lambda>(k, u). Status u = ''active'') (users s)))"
    "InactiveUsers (calculateStats s) = of_nat (length (filter (\<lambda>(k, u). Status u = ''inactive'') (users s)))"
    "SuspendedUsers (calculateStats s) = of_nat (length (filter (\<lambda>(k, u). Status u = ''suspended'') (users s)))"
    using t by (simp_all add: calculateStats_def)
  have g: "GetStats s = c_JSON 200 [(''stats'', JObject (stats_json (calculateStats s)))]"
    by (simp add: GetStats_def)
  have le: "length (filter P (users s)) < 2 ^ 63" if "length (users s) < 2 ^ 63" for P
    using that by (rule le_less_trans[OF length_filter_le])
  have c: "sint (TotalUsers (calculateStats s)) = int (length (users s))
    \<and> sint (ActiveUsers (calculateStats s)) = int (length (filter (\<lambda>(k, u). Status u = ''active'') (users s)))
    \<and> sint (InactiveUsers (calculateStats s)) = int (length (filter (\<lambda>(k, u). Status u = ''inactive'') (users s)))
    \<and> sint (SuspendedUsers (calculateStats s)) = int (length (filter (\<lambda>(k, u). Status u = ''suspended'') (users s)))"
    if "length (users s) < 2 ^ 63"
    unfolding w using that le[OF that] by (simp add: sint_of_nat_exact)
  have d: "sint (TotalDataUsage (calculateStats s)) = sum_list (map (sint \<circ> DataUsage \<circ> snd) (users s))"
    if "- (2 ^ 63) \<le> sum_list (map (sint \<circ> DataUsage \<circ> snd) (users s))"
       "sum_list (map (sint \<circ> DataUsage \<circ> snd) (users s)) < 2 ^ 63"
    unfolding w using sint_sum_list_exact[of "map (DataUsage \<circ> snd) (users s)"] that
    by (simp add: comp_def)
  have e: "sint (TotalConnections (calculateStats s)) = sum_list (map (sint \<circ> ConnectionCount \<circ> snd) (users s))"
    if "- (2 ^ 63) \<le> sum_list (map (sint \<circ> ConnectionCount \<circ> snd) (users s))"
       "sum_list (map (sint \<circ> ConnectionCount \<circ> snd) (users s)) < 2 ^ 63"
    unfolding w using sint_sum_list_exact[of "map (ConnectionCount \<circ> snd) (users s)"] that
    by (simp add: comp_def)
  from w g c d e show ?thesis by blast
qed

theorem calculateStats_totals_witness:
  "length (users stats_example) < 2 ^ 63
 \<and> sint (TotalUsers (calculateStats stats_example)) = 3
 \<and> sint (ActiveUsers (calculateStats stats_example)) = 1
 \<and> sint (InactiveUsers (calculateStats stats_example)) = 0
 \<and> sint (SuspendedUsers (calculateStats stats_example)) = 1
 \<and> sint (TotalDataUsage (calculateStats stats_example)) = 350
 \<and> sint (TotalConnections (calculateStats stats_example)) = 5"
proof -
  have n: "length (users stats_example) = 3" by (simp add: stats_example_def)
  have a: "length (filter (\<lambda>(k, u). Status u = ''active'') (users stats_example)) = 1"
    "length (filter (\<lambda>(k, u). Status u = ''inactive'') (users stats_example)) = 0"
    "length (filter (\<lambda>(k, u). Status u = ''suspended'') (users stats_example)) = 1"
    by (simp_all add: stats_example_def NewUser_def)
  have d: "sum_list (map (sint \<circ> DataUsage \<circ> snd) (users stats_example)) = 350"
    by (simp add: stats_example_def NewUser_def)
  have c: "sum_list (map (sint \<circ> ConnectionCount \<circ> snd) (users stats_example)) = 5"
    by (simp add: stats_example_def NewUser_def)
  note T = calculateStats_totals[of stats_example]
  from T have "length (users stats_example) < 2 ^ 63 \<longrightarrow>
      sint (TotalUsers (calculateStats stats_example)) = int (length (users stats_example))
    \<and> sint (ActiveUsers (calculateStats stats_example)) = int (length (filter (\<lambda>(k, u). Status u = ''active'') (users stats_example)))
    \<and> sint (InactiveUsers (calculateStats stats_example)) = int (length (filter (\<lambda>(k, u). Status u = ''inactive'') (users stats_example)))
    \<and> sint (SuspendedUsers (calculateStats stats_example)) = int (length (filter (\<lambda>(k, u). Status u = ''suspended'') (users stats_example)))"
    by blast
  then have "sint (TotalUsers (calculateStats stats_example)) = 3
      \<and> sint (ActiveUsers (calculateStats stats_example)) = 1
      \<and> sint (InactiveUsers (calculateStats stats_example)) = 0
      \<and> sint (SuspendedUsers (calculateStats stats_example)) = 1"
    unfolding n a by simp
  moreover from T have "- (2 ^ 63) \<le> sum_list (map (sint \<circ> DataUsage \<circ> snd) (users stats_example))
      \<and> sum_list (map (sint \<circ> DataUsage \<circ> snd) (users stats_example)) < 2 ^ 63 \<longrightarrow>
      sint (TotalDataUsage (calculateStats stats_example)) = sum_list (map (sint \<circ> DataUsage \<circ> snd) (users stats_example))"
    by blast
  then have "sint (TotalDataUsage (calculateStats stats_example)) = 350"
    unfolding d by simp
  moreover from T have "- (2 ^ 63) \<le> sum_list (map (sint \<circ> ConnectionCount \<circ> snd) (users stats_example))
      \<and> sum_list (map (sint \<circ> ConnectionCount \<circ> snd) (users stats_example)) < 2 ^ 63 \<longrightarrow>
      sint (TotalConnections (calculateStats stats_example)) = sum_list (map (sint \<circ> ConnectionCount \<circ> snd) (users stats_example))"
    by blast
  then have "sint (TotalConnections (calculateStats stats_example)) = 5"
    unfolding c by simp
  ultimately show ?thesis by (simp add: n)
qed

text \<open>
  C10. For a user whose \<open>PodName\<close> is empty, \<open>DeleteUserVPN\<close> returns no error and the
  cluster is as before, call log included: no deletion call is sent, whatever the
  cluster would have answered to one.
\<close>

theorem DeleteUserVPN_without_pod:
  "PodName user = [] \<Longrightarrow> DeleteUserVPN env user cl = (None, cl)"
  by (simp add: DeleteUserVPN_def)

theorem DeleteUserVPN_without_pod_witness:
  "PodName (NewUser uuid_a 0 ''alice'' ''alice@x.com'') = []
 \<and> pods_delete (env_delete_fails uuid_a) = Some ''connection refused''
 \<and> DeleteUserVPN (env_delete_fails uuid_a) (NewUser uuid_a 0 ''alice'' ''alice@x.com'') emptyCluster
      = (None, emptyCluster)"
proof -
  have p: "PodName (NewUser uuid_a 0 ''alice'' ''alice@x.com'') = []"
    by (simp add: NewUser_def)
  have d: "pods_delete (env_delete_fails uuid_a) = Some ''connection refused''"
    by (simp add: env_delete_fails_def)
  from DeleteUserVPN_without_pod[OF p, of "env_delete_fails uuid_a" emptyCluster] p d
  show ?thesis by simp
qed

(* C6 *)

end
